theory Spec2Isabelle
  imports Main
begin

section \<open>JavaScript values\<close>

text \<open>
  The script of \<^verbatim>\<open>src/truecoach-export.js\<close> works on loosely typed data: the parsed session
  cookie and the parsed JSON bodies of the API. A value is one of the JSON shapes, or
  \<^verbatim>\<open>undefined\<close> (what reading an absent property gives).

  Numbers are the integers: the JSON numbers that a double holds exactly and that
  \<^verbatim>\<open>String\<close> prints in plain decimal notation (magnitude below \<open>10^21\<close>). Fractions and
  exponent forms are outside the model. A string is its text in UTF-8, one \<open>char\<close> a byte:
  the characters the script looks for (comma, double quote, CR, LF) are ASCII, a byte of
  theirs never lies inside the encoding of another character, and the script treats every
  other character alike. An object holds each key once, as \<^verbatim>\<open>JSON.parse\<close> leaves it.
\<close>

datatype jsval =
    JUndefined
  | JNull
  | JBool bool
  | JNum int
  | JStr string
  | JArr "jsval list"
  | JObj "(string \<times> jsval) list"

text \<open>ToBoolean: what \<^verbatim>\<open>!x\<close> and \<^verbatim>\<open>x || y\<close> test.\<close>

fun truthy :: "jsval \<Rightarrow> bool" where
  "truthy JUndefined = False"
| "truthy JNull = False"
| "truthy (JBool b) = b"
| "truthy (JNum n) = (n \<noteq> 0)"
| "truthy (JStr s) = (s \<noteq> [])"
| "truthy (JArr xs) = True"
| "truthy (JObj fs) = True"

text \<open>\<^verbatim>\<open>a || b\<close>: the left operand when it is truthy, the right one otherwise.\<close>

definition js_or :: "jsval \<Rightarrow> jsval \<Rightarrow> jsval" where
  "js_or a b = (if truthy a then a else b)"

text \<open>Decimal digits of a natural number, most significant first.\<close>

fun digits :: "nat \<Rightarrow> string" where
  "digits n =
     (if n < 10 then [''0123456789'' ! n]
      else digits (n div 10) @ [''0123456789'' ! (n mod 10)])"

declare digits.simps [simp del]

definition show_int :: "int \<Rightarrow> string" where
  "show_int i = (if i < 0 then CHR ''-'' # digits (nat (- i)) else digits (nat i))"

text \<open>\<^verbatim>\<open>Array.prototype.join\<close> on an array of strings.\<close>

fun join_strs :: "string \<Rightarrow> string list \<Rightarrow> string" where
  "join_strs sep [] = []"
| "join_strs sep [x] = x"
| "join_strs sep (x # y # ys) = x @ sep @ join_strs sep (y # ys)"

text \<open>
  \<^verbatim>\<open>String(x)\<close>, which a template literal \<^verbatim>\<open>${x}\<close> applies too. An array prints its elements
  joined by commas, \<^verbatim>\<open>null\<close> and \<^verbatim>\<open>undefined\<close> elements as nothing; a plain object prints
  as \<^verbatim>\<open>[object Object]\<close>.

  Two kinds of values are outside what this function describes, beside the numbers named
  above: an object that has a key \<^verbatim>\<open>toString\<close> of its own (alone or inside an array), on which
  \<^verbatim>\<open>String\<close> throws a \<^verbatim>\<open>TypeError\<close>, and an integer of magnitude \<open>10^21\<close> or more, which
  \<^verbatim>\<open>String\<close> prints with an exponent. The function gives them the text of a plain object
  and the plain decimal digits.
\<close>

fun js_String :: "jsval \<Rightarrow> string" where
  "js_String JUndefined = ''undefined''"
| "js_String JNull = ''null''"
| "js_String (JBool b) = (if b then ''true'' else ''false'')"
| "js_String (JNum n) = show_int n"
| "js_String (JStr s) = s"
| "js_String (JArr xs) =
     join_strs '',''
       (map (\<lambda>x. if x = JUndefined \<or> x = JNull then [] else js_String x) xs)"
| "js_String (JObj fs) = ''[object Object]''"

text \<open>
  \<^verbatim>\<open>v?.k\<close> for the property names the script reads (none of them lives on a prototype):
  \<^verbatim>\<open>undefined\<close> when \<open>v\<close> is \<^verbatim>\<open>null\<close> or \<^verbatim>\<open>undefined\<close>, the property of an object, and
  \<^verbatim>\<open>undefined\<close> on every other value.
\<close>

fun opt_get :: "jsval \<Rightarrow> string \<Rightarrow> jsval" where
  "opt_get (JObj fs) k = (case map_of fs k of None \<Rightarrow> JUndefined | Some v \<Rightarrow> v)"
| "opt_get v k = JUndefined"

section \<open>Credentials\<close>

text \<open>
  \<^verbatim>\<open>getAuthCookie()\<close> reads \<^verbatim>\<open>document.cookie\<close>, URL-decodes the session cookie and parses it.
  Its result is the input \<open>cookie\<close> of the model: the parsed value, or \<open>JNull\<close> when the
  cookie is absent or is not JSON. The script calls it again for every page; the model
  takes the cookie to stay the same during a run.
\<close>

definition getBearerToken :: "jsval \<Rightarrow> jsval" where
  "getBearerToken cookie =
     js_or (opt_get (opt_get cookie ''authenticated'') ''access_token'') JNull"

definition getClientID :: "jsval \<Rightarrow> jsval" where
  "getClientID cookie =
     js_or (opt_get (opt_get cookie ''authenticated'') ''user_id'') JNull"

definition getApiBase :: "jsval \<Rightarrow> string" where
  "getApiBase cookie =
     ''https://app.truecoach.co/proxy/api/clients/'' @ js_String (getClientID cookie)
       @ ''/workouts''"

section \<open>Records, pages and the remote service\<close>

text \<open>
  A workout and a workout item are objects of the response; a field the object lacks reads
  as \<open>JUndefined\<close>. Only the fields the script reads are kept.
\<close>

record workout =
  wk_id :: jsval
  wk_due :: jsval
  wk_title :: jsval

record item =
  it_id :: jsval
  it_workout_id :: jsval
  it_name :: jsval
  it_info :: jsval
  it_result :: jsval
  it_state :: jsval

text \<open>
  The body of a page: \<^verbatim>\<open>{ meta: { total_pages, total_count }, workouts, workout_items }\<close>.
  \<open>None\<close> is an absent (or falsy) member. \<open>total_pages\<close> is a number.
\<close>

record page_meta =
  total_pages :: int
  total_count :: jsval

record page_data =
  meta :: "page_meta option"
  workouts :: "workout list option"
  workout_items :: "item list option"

text \<open>
  A response as the script reads it: \<^verbatim>\<open>ok\<close>, \<^verbatim>\<open>status\<close>, \<^verbatim>\<open>statusText\<close>, and the value
  \<^verbatim>\<open>response.json()\<close> resolves to (\<open>None\<close> when the body is not JSON and the promise rejects).
\<close>

record response =
  ok :: bool
  status :: int
  statusText :: string
  json :: "page_data option"

text \<open>\<^verbatim>\<open>fetch\<close> resolves to a response, or rejects (no network).\<close>

datatype fetch_result = Rejected | Resolved response

text \<open>
  What varies in a request: the URL and the \<^verbatim>\<open>Authorization\<close> header. The remote service
  is a function from requests to results; one run asks for each page once.
\<close>

record request =
  url :: string
  authorization :: string

type_synonym server = "request \<Rightarrow> fetch_result"

definition PER_PAGE :: int where
  "PER_PAGE = 20"

definition STATES :: string where
  "STATES = ''completed''"

definition page_request :: "jsval \<Rightarrow> jsval \<Rightarrow> int \<Rightarrow> request" where
  "page_request cookie token currentPage =
     \<lparr> url = getApiBase cookie @ ''?states='' @ STATES @ ''&per_page='' @ show_int PER_PAGE
             @ ''&page='' @ show_int currentPage @ ''&order=desc'',
       authorization = ''Bearer '' @ js_String token \<rparr>"

section \<open>The paginated collector\<close>

text \<open>
  What the \<^verbatim>\<open>try\<close> block can throw while it collects: the script's own
  \<^verbatim>\<open>Error('API request failed: <status> <statusText>')\<close>, a rejected \<^verbatim>\<open>fetch\<close>, a rejected
  \<^verbatim>\<open>response.json()\<close>, and the \<^verbatim>\<open>TypeError\<close> of reading \<^verbatim>\<open>data.meta.total_pages\<close> when
  \<^verbatim>\<open>data.meta\<close> is absent.
\<close>

datatype exn =
    Error string
  | FetchRejected
  | JsonRejected
  | TypeError

text \<open>The \<^verbatim>\<open>Error\<close> thrown on a response that is not \<^verbatim>\<open>ok\<close>; its message holds the status
  and the status text.\<close>

definition api_request_failed :: "response \<Rightarrow> exn" where
  "api_request_failed resp =
     Error (''API request failed: '' @ show_int (status resp) @ '' '' @ statusText resp)"

record collector =
  allWorkouts :: "workout list"
  allWorkoutItems :: "item list"
  sent :: "request list"

text \<open>
  The \<^verbatim>\<open>do { ... } while (currentPage <= totalPages)\<close> loop, one call per iteration. The
  result is the state reached and the exception thrown, if any.
\<close>

function fetch_pages ::
  "jsval \<Rightarrow> server \<Rightarrow> jsval \<Rightarrow> int \<Rightarrow> int \<Rightarrow> collector \<Rightarrow> collector \<times> exn option" where
  "fetch_pages cookie srv token currentPage totalPages st =
     (let req = page_request cookie token currentPage;
          st1 = st\<lparr>sent := sent st @ [req]\<rparr>
      in case srv req of
           Rejected \<Rightarrow> (st1, Some FetchRejected)
         | Resolved resp \<Rightarrow>
             if \<not> ok resp then
               (st1, Some (api_request_failed resp))
             else
               (case json resp of
                  None \<Rightarrow> (st1, Some JsonRejected)
                | Some data \<Rightarrow>
                    (case (if currentPage = 1 then map_option total_pages (meta data)
                           else Some totalPages) of
                       None \<Rightarrow> (st1, Some TypeError)
                     | Some totalPages' \<Rightarrow>
                         (let st2 = st1\<lparr>
                                allWorkouts := allWorkouts st1
                                  @ (case workouts data of None \<Rightarrow> [] | Some ws \<Rightarrow> ws),
                                allWorkoutItems := allWorkoutItems st1
                                  @ (case workout_items data of None \<Rightarrow> [] | Some is \<Rightarrow> is)\<rparr>
                          in if currentPage + 1 \<le> totalPages'
                             then fetch_pages cookie srv token (currentPage + 1) totalPages' st2
                             else (st2, None)))))"
  by pat_completeness auto

termination
  by (relation "measures [\<lambda>(cookie, srv, token, currentPage, totalPages, st).
                             if currentPage \<le> 1 then 1 else 0,
                          \<lambda>(cookie, srv, token, currentPage, totalPages, st).
                             nat (totalPages + 1 - currentPage)]")
     (auto split: if_splits)

declare fetch_pages.simps [simp del]

section \<open>The joiner\<close>

text \<open>
  The lookup \<^verbatim>\<open>workoutMap\<close> is a JavaScript \<^verbatim>\<open>Map\<close>: entries in insertion order, keys
  compared by SameValueZero. \<open>key_eq k' k\<close> compares a key \<open>k'\<close> stored from one parsed
  record with a key \<open>k\<close> read from another one: primitives are the same when their type and
  their value are, and two objects or arrays never are, since each parsed one is an object
  of its own.
\<close>

fun key_eq :: "jsval \<Rightarrow> jsval \<Rightarrow> bool" where
  "key_eq JUndefined JUndefined = True"
| "key_eq JNull JNull = True"
| "key_eq (JBool a) (JBool b) = (a = b)"
| "key_eq (JNum a) (JNum b) = (a = b)"
| "key_eq (JStr a) (JStr b) = (a = b)"
| "key_eq k' k = False"

type_synonym workout_map = "(jsval \<times> workout) list"

text \<open>\<^verbatim>\<open>Map.prototype.set\<close>: the value of an entry with the same key is replaced in place; a
  new key is appended.\<close>

fun map_set :: "workout_map \<Rightarrow> jsval \<Rightarrow> workout \<Rightarrow> workout_map" where
  "map_set [] k v = [(k, v)]"
| "map_set ((k', v') # m) k v =
     (if key_eq k' k then (k', v) # m else (k', v') # map_set m k v)"

text \<open>\<^verbatim>\<open>Map.prototype.get\<close>: \<open>None\<close> stands for \<^verbatim>\<open>undefined\<close>.\<close>

fun map_get :: "workout_map \<Rightarrow> jsval \<Rightarrow> workout option" where
  "map_get [] k = None"
| "map_get ((k', v') # m) k = (if key_eq k' k then Some v' else map_get m k)"

text \<open>\<^verbatim>\<open>for (const workout of allWorkouts) workoutMap.set(workout.id, workout)\<close>\<close>

fun build_map :: "workout list \<Rightarrow> workout_map \<Rightarrow> workout_map" where
  "build_map [] m = m"
| "build_map (w # ws) m = build_map ws (map_set m (wk_id w) w)"

text \<open>
  The console, as far as the properties below read it: the error of a missing token, the
  warning \<^verbatim>\<open>Orphan workout item: ${item.id}\<close> (its argument is the text of the id), and the
  error of the \<^verbatim>\<open>catch\<close> block. Progress messages of \<^verbatim>\<open>console.log\<close> are left out.
\<close>

datatype console_msg =
    NoBearerToken
  | OrphanWarning string
  | ExportFailed exn

definition header_row :: "jsval list" where
  "header_row = [JStr ''date'', JStr ''exercise_name'', JStr ''instructions'',
                 JStr ''result'', JStr ''state'', JStr ''workout_title'']"

definition joined_row :: "workout \<Rightarrow> item \<Rightarrow> jsval list" where
  "joined_row w i =
     [js_or (wk_due w) (JStr ''''), js_or (it_name i) (JStr ''''),
      js_or (it_info i) (JStr ''''), js_or (it_result i) (JStr ''''),
      js_or (it_state i) (JStr ''''), js_or (wk_title w) (JStr '''')]"

text \<open>
  The loop over \<^verbatim>\<open>allWorkoutItems\<close>: a found workout is an object, hence truthy, so
  \<^verbatim>\<open>!workout\<close> holds exactly when the lookup gave \<^verbatim>\<open>undefined\<close>.
\<close>

fun join_items ::
  "workout_map \<Rightarrow> item list \<Rightarrow> jsval list list \<Rightarrow> console_msg list
     \<Rightarrow> jsval list list \<times> console_msg list" where
  "join_items workoutMap [] csvRows console = (csvRows, console)"
| "join_items workoutMap (i # is) csvRows console =
     (case map_get workoutMap (it_workout_id i) of
        None \<Rightarrow>
          join_items workoutMap is csvRows (console @ [OrphanWarning (js_String (it_id i))])
      | Some w \<Rightarrow>
          join_items workoutMap is (csvRows @ [joined_row w i]) console)"

section \<open>The serializer\<close>

definition comma :: char where
  "comma = CHR '',''"

definition dquote :: char where
  "dquote = CHR 0x22"

definition LF :: char where
  "LF = CHR 0x0A"

definition CR :: char where
  "CR = CHR 0x0D"

fun starts_with :: "string \<Rightarrow> string \<Rightarrow> bool" where
  "starts_with s [] = True"
| "starts_with [] (p # ps) = False"
| "starts_with (c # cs) (p # ps) = (c = p \<and> starts_with cs ps)"

text \<open>\<^verbatim>\<open>str.includes(pat)\<close>: \<open>pat\<close> occurs somewhere in \<open>str\<close>.\<close>

fun js_includes :: "string \<Rightarrow> string \<Rightarrow> bool" where
  "js_includes [] pat = (pat = [])"
| "js_includes (c # cs) pat = (starts_with (c # cs) pat \<or> js_includes cs pat)"

text \<open>\<^verbatim>\<open>str.replace(/"/g, '""')\<close>\<close>

fun replace_dquotes :: "string \<Rightarrow> string" where
  "replace_dquotes [] = []"
| "replace_dquotes (c # cs) =
     (if c = dquote then dquote # dquote # replace_dquotes cs else c # replace_dquotes cs)"

definition escape_cell :: "jsval \<Rightarrow> string" where
  "escape_cell cell =
     (let str = js_String cell
      in if js_includes str [comma] \<or> js_includes str [dquote] \<or> js_includes str [LF]
            \<or> js_includes str [CR]
         then [dquote] @ replace_dquotes str @ [dquote]
         else str)"

definition csvContent :: "jsval list list \<Rightarrow> string" where
  "csvContent csvRows =
     join_strs [LF] (map (\<lambda>row. join_strs [comma] (map escape_cell row)) csvRows)"

section \<open>The whole run\<close>

text \<open>
  What a run leaves behind: the requests it sent, in order, its console, and the content of
  the file it offered for download, if any. The file's name holds the date of the day and
  is left out. A run without a token returns at once; an exception of the \<^verbatim>\<open>try\<close> block
  is caught and reported, and nothing is downloaded.
\<close>

record run_result =
  requests :: "request list"
  console :: "console_msg list"
  download :: "string option"

text \<open>
  From the collected records to \<^verbatim>\<open>csvRows\<close> and the warnings: the map is built, \<^verbatim>\<open>csvRows\<close>
  starts with the header, and the loop over the items adds the joined rows.
\<close>

definition csv_rows :: "workout list \<Rightarrow> item list \<Rightarrow> jsval list list \<times> console_msg list" where
  "csv_rows ws is = join_items (build_map ws []) is [header_row] []"

definition exportTrueCoachWorkouts :: "jsval \<Rightarrow> server \<Rightarrow> run_result" where
  "exportTrueCoachWorkouts cookie srv =
     (let token = getBearerToken cookie
      in if \<not> truthy token then
           \<lparr> requests = [], console = [NoBearerToken], download = None \<rparr>
         else
           (case fetch_pages cookie srv token 1 1
                   \<lparr> allWorkouts = [], allWorkoutItems = [], sent = [] \<rparr> of
              (st, Some e) \<Rightarrow>
                \<lparr> requests = sent st, console = [ExportFailed e], download = None \<rparr>
            | (st, None) \<Rightarrow>
                (let (csvRows, warnings) = csv_rows (allWorkouts st) (allWorkoutItems st)
                 in \<lparr> requests = sent st, console = warnings,
                      download = Some (csvContent csvRows) \<rparr>)))"

section \<open>Vocabulary of the properties\<close>

text \<open>A primitive value: not an array and not an object.\<close>

fun primitive :: "jsval \<Rightarrow> bool" where
  "primitive (JArr xs) = False"
| "primitive (JObj fs) = False"
| "primitive v = True"

text \<open>The language type of a value.\<close>

datatype js_type = TUndefined | TNull | TBoolean | TNumber | TString | TObject

fun type_of :: "jsval \<Rightarrow> js_type" where
  "type_of JUndefined = TUndefined"
| "type_of JNull = TNull"
| "type_of (JBool b) = TBoolean"
| "type_of (JNum n) = TNumber"
| "type_of (JStr s) = TString"
| "type_of (JArr xs) = TObject"
| "type_of (JObj fs) = TObject"

text \<open>
  The parent of an item among the collected workouts: the last workout whose \<^verbatim>\<open>id\<close> is the
  item's \<^verbatim>\<open>workout_id\<close>. An item has a parent when some workout matches.
\<close>

definition parent_of :: "workout list \<Rightarrow> item \<Rightarrow> workout option" where
  "parent_of ws i = find (\<lambda>w. key_eq (wk_id w) (it_workout_id i)) (rev ws)"

definition has_parent :: "workout list \<Rightarrow> item \<Rightarrow> bool" where
  "has_parent ws i = list_ex (\<lambda>w. key_eq (wk_id w) (it_workout_id i)) ws"

text \<open>
  The escaping rule in the specification's words: a text that holds the separator, a double
  quote or a line break (CR or LF, the line breaks of RFC 4180) is wrapped in double quotes
  with every double quote doubled; any other text stands as it is.
\<close>

definition spec_cell_text :: "string \<Rightarrow> string" where
  "spec_cell_text s =
     (if comma \<in> set s \<or> dquote \<in> set s \<or> LF \<in> set s \<or> CR \<in> set s
      then [dquote] @ concat (map (\<lambda>c. if c = dquote then [dquote, dquote] else [c]) s) @ [dquote]
      else s)"

text \<open>A text that needs no quoting, and the text of one row of the output.\<close>

definition plain :: "string \<Rightarrow> bool" where
  "plain s = (comma \<notin> set s \<and> dquote \<notin> set s \<and> LF \<notin> set s \<and> CR \<notin> set s)"

definition row_text :: "jsval list \<Rightarrow> string" where
  "row_text row = join_strs [comma] (map escape_cell row)"

text \<open>A fetch succeeds when it resolves to an \<^verbatim>\<open>ok\<close> response with a JSON body.\<close>

definition page_succeeds :: "fetch_result \<Rightarrow> bool" where
  "page_succeeds r =
     (case r of Rejected \<Rightarrow> False | Resolved resp \<Rightarrow> ok resp \<and> json resp \<noteq> None)"

text \<open>The \<^verbatim>\<open>meta.total_pages\<close> a fetch result reports, if it reports one.\<close>

definition reported_total_pages :: "fetch_result \<Rightarrow> int option" where
  "reported_total_pages r =
     (case r of
        Rejected \<Rightarrow> None
      | Resolved resp \<Rightarrow>
          (case json resp of
             None \<Rightarrow> None
           | Some data \<Rightarrow> map_option total_pages (meta data)))"

section \<open>A reference reader of delimited text\<close>

text \<open>
  The reader the round trip is stated against, after RFC 4180: fields are separated by
  commas and records by LF or CRLF; a field that starts with a double quote runs to the
  closing double quote, and a doubled double quote inside it stands for one; a line break
  that ends the text ends the last record and starts no new one. The reader is lenient on
  text the grammar excludes (a quote inside an unquoted field, text after a closing quote,
  a lone CR): it keeps the characters.

  \<open>parse_csv_from st field line records\<close>: \<open>field\<close> is the text of the field being read,
  \<open>line\<close> the fields of the record being read, \<open>records\<close> the finished records.
\<close>

datatype pstate = FieldStart | Unquoted | Quoted | QuoteInQuoted

fun parse_csv_from ::
  "pstate \<Rightarrow> string \<Rightarrow> string list \<Rightarrow> string list list \<Rightarrow> string \<Rightarrow> string list list" where
  "parse_csv_from st field line records [] =
     (if st = FieldStart \<and> line = [] then records else records @ [line @ [field]])"
| "parse_csv_from Quoted field line records (c # cs) =
     (if c = dquote then parse_csv_from QuoteInQuoted field line records cs
      else parse_csv_from Quoted (field @ [c]) line records cs)"
| "parse_csv_from st field line records (c # cs) =
     (if c = dquote \<and> st = FieldStart then parse_csv_from Quoted [] line records cs
      else if c = dquote \<and> st = QuoteInQuoted then
        parse_csv_from Quoted (field @ [dquote]) line records cs
      else if c = comma then parse_csv_from FieldStart [] (line @ [field]) records cs
      else if c = LF then parse_csv_from FieldStart [] [] (records @ [line @ [field]]) cs
      else if c = CR then
        (case cs of
           [] \<Rightarrow> parse_csv_from Unquoted (field @ [c]) line records cs
         | c' # cs' \<Rightarrow>
             if c' = LF then parse_csv_from FieldStart [] [] (records @ [line @ [field]]) cs'
             else parse_csv_from Unquoted (field @ [c]) line records cs)
      else parse_csv_from Unquoted (field @ [c]) line records cs)"

definition parse_csv :: "string \<Rightarrow> string list list" where
  "parse_csv s = parse_csv_from FieldStart [] [] [] s"

section \<open>Concrete inputs\<close>

text \<open>A session with both credentials, and one that lacks the \<^verbatim>\<open>user_id\<close>.\<close>

definition session_cookie :: jsval where
  "session_cookie =
     JObj [(''authenticated'', JObj [(''access_token'', JStr ''abc''), (''user_id'', JNum 42)])]"

definition cookie_without_user_id :: jsval where
  "cookie_without_user_id = JObj [(''authenticated'', JObj [(''access_token'', JStr ''abc'')])]"

definition cookie_without_token :: jsval where
  "cookie_without_token = JObj [(''authenticated'', JObj [(''user_id'', JNum 42)])]"

text \<open>The records of the specification's example, and variations of them.\<close>

definition leg_day :: workout where
  "leg_day = \<lparr> wk_id = JNum 5, wk_due = JStr ''2024-01-01'', wk_title = JStr ''Leg Day'' \<rparr>"

definition old_leg_day :: workout where
  "old_leg_day = \<lparr> wk_id = JNum 5, wk_due = JStr ''2023-12-31'', wk_title = JStr ''Old'' \<rparr>"

definition leg_day_text_id :: workout where
  "leg_day_text_id =
     \<lparr> wk_id = JStr ''5'', wk_due = JStr ''2024-02-02'', wk_title = JStr ''Upper Body'' \<rparr>"

definition rest_day :: workout where
  "rest_day = \<lparr> wk_id = JStr ''7'', wk_due = JStr ''2024-03-03'', wk_title = JStr ''Rest'' \<rparr>"

definition squat :: item where
  "squat = \<lparr> it_id = JNum 9, it_workout_id = JNum 5, it_name = JStr ''Squat'',
             it_info = JUndefined, it_result = JStr ''5x5'', it_state = JStr ''completed'' \<rparr>"

definition squat_text_key :: item where
  "squat_text_key = squat \<lparr> it_id := JNum 10, it_workout_id := JStr ''5'' \<rparr>"

definition squat_zero_result :: item where
  "squat_zero_result = squat \<lparr> it_result := JNum 0 \<rparr>"

definition tricky_row :: "jsval list" where
  "tricky_row = [JStr ''a,b'', JStr [CHR ''x'', dquote, CHR ''y''], JStr [CHR ''l'', LF, CHR ''m''],
                 JStr [CHR ''r'', CR, LF], JNum 7, JStr '''']"

text \<open>Responses, the first request of a run with \<open>session_cookie\<close>, and four services.\<close>

definition ok_page :: "int \<Rightarrow> workout list \<Rightarrow> item list \<Rightarrow> fetch_result" where
  "ok_page n ws is =
     Resolved \<lparr> ok = True, status = 200, statusText = ''OK'',
                json = Some \<lparr> meta = Some \<lparr> total_pages = n, total_count = JNum 1 \<rparr>,
                              workouts = Some ws, workout_items = Some is \<rparr> \<rparr>"

definition internal_error :: response where
  "internal_error =
     \<lparr> ok = False, status = 500, statusText = ''Internal Server Error'', json = None \<rparr>"

definition first_page :: request where
  "first_page =
     \<lparr> url = ''https://app.truecoach.co/proxy/api/clients/42/workouts?states=completed&per_page=20&page=1&order=desc'',
       authorization = ''Bearer abc'' \<rparr>"

definition second_page :: request where
  "second_page =
     \<lparr> url = ''https://app.truecoach.co/proxy/api/clients/42/workouts?states=completed&per_page=20&page=2&order=desc'',
       authorization = ''Bearer abc'' \<rparr>"

definition srv_two_pages :: server where
  "srv_two_pages r = (if r = first_page then ok_page 2 [leg_day] [squat] else ok_page 7 [] [])"

definition srv_no_pages :: server where
  "srv_no_pages r = ok_page 0 [] []"

definition srv_fails_second :: server where
  "srv_fails_second r =
     (if r = first_page then ok_page 3 [leg_day] [squat] else Resolved internal_error)"

definition srv_duplicates :: server where
  "srv_duplicates r = ok_page 1 [old_leg_day, leg_day] [squat]"

section \<open>Lemmas: the joiner\<close>

lemma key_eq_iff: "key_eq a b = (a = b \<and> primitive a)"
  by (cases a; cases b) auto

lemma key_eq_same_type: "key_eq a b \<Longrightarrow> type_of a = type_of b"
  by (simp add: key_eq_iff)

lemma map_get_map_set:
  "map_get (map_set m k v) k' = (if key_eq k k' then Some v else map_get m k')"
  by (induction m) (auto simp: key_eq_iff)

lemma find_app:
  "find P (xs @ ys) = (case find P xs of None \<Rightarrow> find P ys | Some x \<Rightarrow> Some x)"
  by (induction xs) auto

lemma map_get_build_map:
  "map_get (build_map ws m) k =
     (case find (\<lambda>w. key_eq (wk_id w) k) (rev ws) of None \<Rightarrow> map_get m k | Some w \<Rightarrow> Some w)"
proof (induction ws arbitrary: m)
  case Nil
  then show ?case by simp
next
  case (Cons w ws)
  show ?case
    by (simp add: Cons.IH map_get_map_set find_app split: option.splits)
qed

lemma map_get_last_match:
  "map_get (build_map ws []) k = find (\<lambda>w. key_eq (wk_id w) k) (rev ws)"
  by (simp add: map_get_build_map split: option.splits)

lemma map_get_workoutMap: "map_get (build_map ws []) (it_workout_id i) = parent_of ws i"
  by (simp add: map_get_last_match parent_of_def)

lemma parent_of_None: "(parent_of ws i = None) = (\<not> has_parent ws i)"
  by (auto simp: parent_of_def has_parent_def find_None_iff list_ex_iff)

lemma parent_of_Some:
  assumes "parent_of ws i = Some w"
  shows "w \<in> set ws \<and> key_eq (wk_id w) (it_workout_id i)"
proof -
  have "find (\<lambda>w. key_eq (wk_id w) (it_workout_id i)) (rev ws) = Some w"
    using assms by (simp add: parent_of_def)
  then obtain k where "k < length (rev ws)" "rev ws ! k = w" "key_eq (wk_id w) (it_workout_id i)"
    unfolding find_Some_iff by blast
  then show ?thesis
    using nth_mem [of k "rev ws"] by auto
qed

lemma join_items_eq:
  "join_items (build_map ws []) is rows con =
     (rows @ map (\<lambda>i. joined_row (the (parent_of ws i)) i) (filter (has_parent ws) is),
      con @ map (\<lambda>i. OrphanWarning (js_String (it_id i)))
                (filter (\<lambda>i. \<not> has_parent ws i) is))"
proof (induction "is" arbitrary: rows con)
  case Nil
  then show ?case by simp
next
  case (Cons i "is")
  show ?case
  proof (cases "parent_of ws i")
    case None
    then show ?thesis
      using parent_of_None [of ws i] by (simp add: Cons.IH map_get_workoutMap)
  next
    case (Some w)
    then show ?thesis
      using parent_of_None [of ws i] by (simp add: Cons.IH map_get_workoutMap)
  qed
qed

lemma csv_rows_eq:
  "csv_rows ws is =
     (header_row # map (\<lambda>i. joined_row (the (parent_of ws i)) i) (filter (has_parent ws) is),
      map (\<lambda>i. OrphanWarning (js_String (it_id i))) (filter (\<lambda>i. \<not> has_parent ws i) is))"
  by (simp add: csv_rows_def join_items_eq)

lemma csv_rows_six_columns: "\<forall>row\<in>set (fst (csv_rows ws is)). length row = 6"
  by (auto simp: csv_rows_eq header_row_def joined_row_def)

section \<open>Lemmas: the serializer and the reference reader\<close>

lemma starts_with_Nil [simp]: "starts_with s []"
  by (cases s) auto

lemma js_includes_single: "js_includes s [c] = (c \<in> set s)"
  by (induction s) auto

lemma replace_dquotes_concat:
  "replace_dquotes s = concat (map (\<lambda>c. if c = dquote then [dquote, dquote] else [c]) s)"
  by (induction s) auto

lemma escape_cell_spec: "escape_cell cell = spec_cell_text (js_String cell)"
  by (simp add: escape_cell_def spec_cell_text_def js_includes_single replace_dquotes_concat)

lemma plain_Cons:
  "plain (c # s) = (c \<noteq> comma \<and> c \<noteq> dquote \<and> c \<noteq> LF \<and> c \<noteq> CR \<and> plain s)"
  by (auto simp: plain_def)

lemma separators_distinct:
  "dquote \<noteq> comma" "dquote \<noteq> LF" "dquote \<noteq> CR" "comma \<noteq> LF" "comma \<noteq> CR" "LF \<noteq> CR"
  by (simp_all add: dquote_def comma_def LF_def CR_def)

lemma parse_plain_step:
  "c \<noteq> comma \<Longrightarrow> c \<noteq> dquote \<Longrightarrow> c \<noteq> LF \<Longrightarrow> c \<noteq> CR \<Longrightarrow> st = FieldStart \<or> st = Unquoted \<Longrightarrow>
   parse_csv_from st field line records (c # cs) =
     parse_csv_from Unquoted (field @ [c]) line records cs"
  by auto

lemma parse_unquoted_run:
  "plain s \<Longrightarrow>
   parse_csv_from Unquoted field line records (s @ rest) =
     parse_csv_from Unquoted (field @ s) line records rest"
proof (induction s arbitrary: field)
  case Nil
  then show ?case by simp
next
  case (Cons c s)
  then show ?case
    by (simp only: plain_Cons append_Cons parse_plain_step) simp
qed

lemma parse_comma:
  "st \<noteq> Quoted \<Longrightarrow>
   parse_csv_from st field line records (comma # cs) =
     parse_csv_from FieldStart [] (line @ [field]) records cs"
  using separators_distinct by (cases st) auto

lemma parse_LF:
  "st \<noteq> Quoted \<Longrightarrow>
   parse_csv_from st field line records (LF # cs) =
     parse_csv_from FieldStart [] [] (records @ [line @ [field]]) cs"
  using separators_distinct by (cases st) auto

lemma parse_quoted_run:
  "parse_csv_from Quoted field line records (replace_dquotes s @ dquote # rest) =
     parse_csv_from QuoteInQuoted (field @ s) line records rest"
proof (induction s arbitrary: field)
  case Nil
  then show ?case by simp
next
  case (Cons c s)
  show ?case
    by (simp add: Cons.IH)
qed

text \<open>Once a cell is read, the reader is outside quotes; it is still at the start of the
  field only when the cell's text is empty.\<close>

lemma parse_cell:
  "\<exists>st. st \<noteq> Quoted \<and> (st = FieldStart \<longrightarrow> js_String c = []) \<and>
        (\<forall>rest. parse_csv_from FieldStart [] line records (escape_cell c @ rest) =
                parse_csv_from st (js_String c) line records rest)"
proof (cases "plain (js_String c)")
  case True
  then have e: "escape_cell c = js_String c"
    by (simp add: escape_cell_def plain_def js_includes_single)
  show ?thesis
  proof (cases "js_String c")
    case Nil
    then show ?thesis using e by auto
  next
    case (Cons x xs)
    then have p: "x \<noteq> comma" "x \<noteq> dquote" "x \<noteq> LF" "x \<noteq> CR" "plain xs"
      using True by (simp_all add: plain_Cons)
    have "\<forall>rest. parse_csv_from FieldStart [] line records (escape_cell c @ rest) =
                parse_csv_from Unquoted (js_String c) line records rest"
      using p parse_unquoted_run [of xs "[x]"] by (simp add: e Cons)
    then show ?thesis by blast
  qed
next
  case False
  then have e: "escape_cell c = dquote # replace_dquotes (js_String c) @ [dquote]"
    by (auto simp: escape_cell_def plain_def js_includes_single)
  have "\<forall>rest. parse_csv_from FieldStart [] line records (escape_cell c @ rest) =
                parse_csv_from QuoteInQuoted (js_String c) line records rest"
    using parse_quoted_run [of "[]" line records "js_String c"] by (simp add: e)
  then show ?thesis by blast
qed

lemma parse_cell_comma:
  "parse_csv_from FieldStart [] line records (escape_cell c @ comma # rest) =
     parse_csv_from FieldStart [] (line @ [js_String c]) records rest"
  using parse_cell [of c line records] by (auto simp: parse_comma)

lemma parse_cell_LF:
  "parse_csv_from FieldStart [] line records (escape_cell c @ LF # rest) =
     parse_csv_from FieldStart [] [] (records @ [line @ [js_String c]]) rest"
  using parse_cell [of c line records] by (auto simp: parse_LF)

lemma parse_cell_end:
  assumes "line \<noteq> []"
  shows "parse_csv_from FieldStart [] line records (escape_cell c) =
           records @ [line @ [js_String c]]"
proof -
  obtain st where
    "\<forall>rest. parse_csv_from FieldStart [] line records (escape_cell c @ rest) =
            parse_csv_from st (js_String c) line records rest"
    using parse_cell [of c line records] by blast
  then have "parse_csv_from FieldStart [] line records (escape_cell c @ []) =
               parse_csv_from st (js_String c) line records []"
    by blast
  then show ?thesis using assms by simp
qed

lemma row_text_simps:
  "row_text [c] = escape_cell c"
  "row_text (c # d # cs) = escape_cell c @ comma # row_text (d # cs)"
  by (simp_all add: row_text_def)

lemma parse_row_LF:
  "row \<noteq> [] \<Longrightarrow>
   parse_csv_from FieldStart [] line records (row_text row @ LF # rest) =
     parse_csv_from FieldStart [] [] (records @ [line @ map js_String row]) rest"
proof (induction row arbitrary: line)
  case Nil
  then show ?case by simp
next
  case (Cons c row)
  show ?case
  proof (cases row)
    case Nil
    then show ?thesis by (simp add: row_text_simps parse_cell_LF)
  next
    case (Cons d ds)
    then show ?thesis
      using Cons.IH [of "line @ [js_String c]"]
      by (simp add: row_text_simps parse_cell_comma)
  qed
qed

lemma parse_row_end:
  "row \<noteq> [] \<Longrightarrow> line \<noteq> [] \<or> 2 \<le> length row \<Longrightarrow>
   parse_csv_from FieldStart [] line records (row_text row) =
     records @ [line @ map js_String row]"
proof (induction row arbitrary: line)
  case Nil
  then show ?case by simp
next
  case (Cons c row)
  show ?case
  proof (cases row)
    case Nil
    then show ?thesis using Cons.prems by (simp add: row_text_simps parse_cell_end)
  next
    case (Cons d ds)
    then show ?thesis
      using Cons.IH [of "line @ [js_String c]"]
      by (simp add: row_text_simps parse_cell_comma)
  qed
qed

lemma csvContent_simps:
  "csvContent [row] = row_text row"
  "csvContent (row # r # rows) = row_text row @ LF # csvContent (r # rows)"
  by (simp_all add: csvContent_def row_text_def)

lemma parse_rows:
  "rows \<noteq> [] \<Longrightarrow> \<forall>row\<in>set rows. 2 \<le> length row \<Longrightarrow>
   parse_csv_from FieldStart [] [] records (csvContent rows) = records @ map (map js_String) rows"
proof (induction rows arbitrary: records)
  case Nil
  then show ?case by simp
next
  case (Cons row rows)
  have r: "row \<noteq> []" "2 \<le> length row"
    using Cons.prems by auto
  show ?case
  proof (cases rows)
    case Nil
    then show ?thesis using r by (simp add: csvContent_simps parse_row_end)
  next
    case (Cons r rs)
    then show ?thesis
      using Cons.IH [of "records @ [map js_String row]"] Cons.prems r
      by (simp add: csvContent_simps parse_row_LF)
  qed
qed

lemma parse_csv_csvContent:
  "rows \<noteq> [] \<Longrightarrow> \<forall>row\<in>set rows. 2 \<le> length row \<Longrightarrow>
   parse_csv (csvContent rows) = map (map js_String) rows"
  by (simp add: parse_csv_def parse_rows)

section \<open>Lemmas: the collector and the run\<close>

text \<open>
  A call of the loop sends the request of its current page first. Among the requests it
  sends, one that gets a response that is not \<^verbatim>\<open>ok\<close> is the last one, and the loop ends
  with the error of that response.
\<close>

lemma fetch_pages_failure:
  "fetch_pages cookie srv token cur tot st0 = (st, e) \<Longrightarrow>
   \<exists>rs. sent st = sent st0 @ page_request cookie token cur # rs \<and>
     (\<forall>k resp. k < Suc (length rs) \<and> srv ((page_request cookie token cur # rs) ! k) = Resolved resp
                 \<and> \<not> ok resp \<longrightarrow>
        k = length rs \<and> e = Some (api_request_failed resp))"
proof (induction cookie srv token cur tot st0 arbitrary: st e rule: fetch_pages.induct)
  case (1 cookie srv token currentPage totalPages st0)
  let ?req = "page_request cookie token currentPage"
  let ?st1 = "st0\<lparr>sent := sent st0 @ [?req]\<rparr>"
  note run = "1.prems" [unfolded fetch_pages.simps [of cookie srv token currentPage totalPages st0]]
  have single: ?case if "sent st = sent st0 @ [?req]"
    and "\<And>resp. srv ?req = Resolved resp \<Longrightarrow> \<not> ok resp \<Longrightarrow> e = Some (api_request_failed resp)"
    using that by (intro exI [of _ "[]"]) auto
  show ?case
  proof (cases "srv ?req")
    case Rejected
    then have "sent st = sent st0 @ [?req]"
      using run by (auto simp: Let_def)
    then show ?thesis using Rejected by (intro single) auto
  next
    case (Resolved resp)
    show ?thesis
    proof (cases "ok resp")
      case False
      then have "sent st = sent st0 @ [?req]" "e = Some (api_request_failed resp)"
        using run Resolved by (auto simp: Let_def)
      then show ?thesis using Resolved by (intro single) auto
    next
      case True
      note ok = this
      show ?thesis
      proof (cases "json resp")
        case None
        then have "sent st = sent st0 @ [?req]"
          using run Resolved ok by (auto simp: Let_def)
        then show ?thesis using Resolved ok by (intro single) auto
      next
        case (Some data)
        let ?tot = "if currentPage = 1 then map_option total_pages (meta data)
                    else Some totalPages"
        show ?thesis
        proof (cases ?tot)
          case None
          then have "sent st = sent st0 @ [?req]"
            using run Resolved ok Some by (auto simp: Let_def)
          then show ?thesis using Resolved ok by (intro single) auto
        next
          case tot: (Some totalPages')
          let ?st2 = "?st1\<lparr>
                allWorkouts := allWorkouts ?st1
                  @ (case workouts data of None \<Rightarrow> [] | Some ws \<Rightarrow> ws),
                allWorkoutItems := allWorkoutItems ?st1
                  @ (case workout_items data of None \<Rightarrow> [] | Some is \<Rightarrow> is)\<rparr>"
          show ?thesis
          proof (cases "currentPage + 1 \<le> totalPages'")
            case False
            then have "sent st = sent st0 @ [?req]"
              using run Resolved ok Some tot by (auto simp: Let_def)
            then show ?thesis using Resolved ok by (intro single) auto
          next
            case True
            let ?next = "page_request cookie token (currentPage + 1)"
            have "fetch_pages cookie srv token (currentPage + 1) totalPages' ?st2 = (st, e)"
              using run Resolved ok Some tot True by (simp add: Let_def)
            from "1.IH" [OF refl refl Resolved _ Some tot refl True this] ok
            obtain rs where rs: "sent st = sent ?st2 @ ?next # rs"
              "\<forall>k resp. k < Suc (length rs) \<and> srv ((?next # rs) ! k) = Resolved resp \<and> \<not> ok resp
                 \<longrightarrow> k = length rs \<and> e = Some (api_request_failed resp)"
              by auto
            have "sent st = sent st0 @ ?req # (?next # rs)"
              using rs(1) by simp
            moreover have "\<forall>k resp. k < Suc (length (?next # rs))
                 \<and> srv ((?req # ?next # rs) ! k) = Resolved resp \<and> \<not> ok resp
                 \<longrightarrow> k = length (?next # rs) \<and> e = Some (api_request_failed resp)"
            proof (intro allI impI)
              fix k resp'
              assume a: "k < Suc (length (?next # rs))
                 \<and> srv ((?req # ?next # rs) ! k) = Resolved resp' \<and> \<not> ok resp'"
              show "k = length (?next # rs) \<and> e = Some (api_request_failed resp')"
              proof (cases k)
                case 0
                then show ?thesis using a Resolved ok by simp
              next
                case (Suc j)
                then show ?thesis using a rs(2) [rule_format, of j resp'] by simp
              qed
            qed
            ultimately show ?thesis by blast
          qed
        qed
      qed
    qed
  qed
qed

lemma page_succeeds_cases:
  assumes "page_succeeds r"
  obtains resp data where "r = Resolved resp" "ok resp" "json resp = Some data"
  using assms by (cases r) (auto simp: page_succeeds_def)

text \<open>From the second page on, the loop asks for every page up to the total it was given.\<close>

lemma fetch_pages_later:
  "2 \<le> cur \<Longrightarrow>
   \<forall>p. cur \<le> p \<and> p \<le> max cur tot \<longrightarrow> page_succeeds (srv (page_request cookie token p)) \<Longrightarrow>
   \<exists>st. fetch_pages cookie srv token cur tot st0 = (st, None) \<and>
        sent st = sent st0 @ map (page_request cookie token) [cur..max cur tot]"
proof (induction cookie srv token cur tot st0 rule: fetch_pages.induct)
  case (1 cookie srv token currentPage totalPages st0)
  let ?req = "page_request cookie token currentPage"
  let ?st1 = "st0\<lparr>sent := sent st0 @ [?req]\<rparr>"
  have "page_succeeds (srv ?req)"
    using "1.prems"(2) by simp
  then obtain resp data where r: "srv ?req = Resolved resp" "ok resp" "json resp = Some data"
    by (rule page_succeeds_cases)
  let ?st2 = "?st1\<lparr>
        allWorkouts := allWorkouts ?st1 @ (case workouts data of None \<Rightarrow> [] | Some ws \<Rightarrow> ws),
        allWorkoutItems := allWorkoutItems ?st1
          @ (case workout_items data of None \<Rightarrow> [] | Some is \<Rightarrow> is)\<rparr>"
  have tot: "(if currentPage = 1 then map_option total_pages (meta data) else Some totalPages)
               = Some totalPages"
    using "1.prems"(1) by simp
  show ?case
  proof (cases "currentPage + 1 \<le> totalPages")
    case True
    have "\<exists>st. fetch_pages cookie srv token (currentPage + 1) totalPages ?st2 = (st, None) \<and>
            sent st = sent ?st2 @ map (page_request cookie token)
                                      [currentPage + 1..max (currentPage + 1) totalPages]"
    proof (rule "1.IH" [OF refl refl r(1) _ r(3) tot refl True])
      show "\<not> \<not> ok resp" using r(2) by simp
      show "2 \<le> currentPage + 1" using "1.prems"(1) by simp
      show "\<forall>p. currentPage + 1 \<le> p \<and> p \<le> max (currentPage + 1) totalPages \<longrightarrow>
              page_succeeds (srv (page_request cookie token p))"
        using "1.prems"(2) True by auto
    qed
    then obtain st where st:
      "fetch_pages cookie srv token (currentPage + 1) totalPages ?st2 = (st, None)"
      "sent st = sent ?st2 @ map (page_request cookie token)
                                 [currentPage + 1..max (currentPage + 1) totalPages]"
      by blast
    have "fetch_pages cookie srv token currentPage totalPages st0 = (st, None)"
      using r tot True st(1) "1.prems"(1)
      by (subst fetch_pages.simps) (simp add: Let_def)
    moreover have "[currentPage..max currentPage totalPages]
                     = currentPage # [currentPage + 1..max (currentPage + 1) totalPages]"
      using True by (simp add: upto_rec1 max_def)
    ultimately show ?thesis using st(2) by simp
  next
    case False
    have "fetch_pages cookie srv token currentPage totalPages st0 = (?st2, None)"
      using r tot False "1.prems"(1)
      by (subst fetch_pages.simps) (simp add: Let_def)
    moreover have "max currentPage totalPages = currentPage"
      using False by simp
    then have "[currentPage..max currentPage totalPages] = [currentPage]"
      by simp
    ultimately show ?thesis by simp
  qed
qed

text \<open>On the first page the loop reads the total and goes on with it.\<close>

lemma fetch_pages_first:
  assumes p1: "page_succeeds (srv (page_request cookie token 1))"
    and n: "reported_total_pages (srv (page_request cookie token 1)) = Some N"
    and later: "\<forall>p. 2 \<le> p \<and> p \<le> N \<longrightarrow> page_succeeds (srv (page_request cookie token p))"
  shows "\<exists>st. fetch_pages cookie srv token 1 tot st0 = (st, None) \<and>
              sent st = sent st0 @ map (page_request cookie token) [1..max 1 N]"
proof -
  let ?req = "page_request cookie token 1"
  let ?st1 = "st0\<lparr>sent := sent st0 @ [?req]\<rparr>"
  obtain resp data where r: "srv ?req = Resolved resp" "ok resp" "json resp = Some data"
    using p1 by (rule page_succeeds_cases)
  obtain mt where m: "meta data = Some mt" "total_pages mt = N"
    using n r by (auto simp: reported_total_pages_def)
  let ?st2 = "?st1\<lparr>
        allWorkouts := allWorkouts ?st1 @ (case workouts data of None \<Rightarrow> [] | Some ws \<Rightarrow> ws),
        allWorkoutItems := allWorkoutItems ?st1
          @ (case workout_items data of None \<Rightarrow> [] | Some is \<Rightarrow> is)\<rparr>"
  show ?thesis
  proof (cases "2 \<le> N")
    case True
    have "\<forall>p. 2 \<le> p \<and> p \<le> max 2 N \<longrightarrow> page_succeeds (srv (page_request cookie token p))"
      using later True by (simp add: max_def)
    from fetch_pages_later [OF _ this, of ?st2]
    obtain st where st: "fetch_pages cookie srv token 2 N ?st2 = (st, None)"
      "sent st = sent ?st2 @ map (page_request cookie token) [2..max 2 N]"
      by auto
    have "fetch_pages cookie srv token 1 tot st0 = (st, None)"
      using r m True st(1) by (subst fetch_pages.simps) (simp add: Let_def)
    moreover have "[1..max 1 N] = 1 # [2..max 2 N]"
      using True by (simp add: upto_rec1 max_def)
    ultimately show ?thesis using st(2) by simp
  next
    case False
    have "fetch_pages cookie srv token 1 tot st0 = (?st2, None)"
      using r m False by (subst fetch_pages.simps) (simp add: Let_def)
    moreover have "max 1 N = 1"
      using False by simp
    then have "[1..max 1 N] = [1]"
      by simp
    ultimately show ?thesis by simp
  qed
qed

lemma run_no_token:
  "\<not> truthy (getBearerToken cookie) \<Longrightarrow>
   exportTrueCoachWorkouts cookie srv =
     \<lparr> requests = [], console = [NoBearerToken], download = None \<rparr>"
  by (simp add: exportTrueCoachWorkouts_def)

lemma run_thrown:
  "truthy (getBearerToken cookie) \<Longrightarrow>
   fetch_pages cookie srv (getBearerToken cookie) 1 1
       \<lparr> allWorkouts = [], allWorkoutItems = [], sent = [] \<rparr> = (st, Some e) \<Longrightarrow>
   exportTrueCoachWorkouts cookie srv =
     \<lparr> requests = sent st, console = [ExportFailed e], download = None \<rparr>"
  by (simp add: exportTrueCoachWorkouts_def)

lemma run_collected:
  "truthy (getBearerToken cookie) \<Longrightarrow>
   fetch_pages cookie srv (getBearerToken cookie) 1 1
       \<lparr> allWorkouts = [], allWorkoutItems = [], sent = [] \<rparr> = (st, None) \<Longrightarrow>
   exportTrueCoachWorkouts cookie srv =
     \<lparr> requests = sent st,
       console = snd (csv_rows (allWorkouts st) (allWorkoutItems st)),
       download = Some (csvContent (fst (csv_rows (allWorkouts st) (allWorkoutItems st)))) \<rparr>"
  by (simp add: exportTrueCoachWorkouts_def split: prod.splits)

section \<open>The claims\<close>

subsection \<open>C1: the number of page fetches\<close>

text \<open>
  Claim C1, amended. In a run with a bearer token in which page 1 succeeds and reports
  \<^verbatim>\<open>total_pages = N\<close>, and every page from 2 to \<open>N\<close> succeeds, the collector sends exactly the
  requests of the pages \<open>1, \<dots>, max 1 N\<close>, in this order: \<open>N\<close> fetches when \<open>N\<close> is at least 1,
  and the one fetch of page 1 otherwise. Nothing is assumed of what the later pages report
  as their total: it is not read.
\<close>

theorem pagination_fetches_pages_one_to_total:
  assumes "truthy (getBearerToken cookie)"
    and "page_succeeds (srv (page_request cookie (getBearerToken cookie) 1))"
    and "reported_total_pages (srv (page_request cookie (getBearerToken cookie) 1)) = Some N"
    and "\<forall>p. 2 \<le> p \<and> p \<le> N \<longrightarrow>
           page_succeeds (srv (page_request cookie (getBearerToken cookie) p))"
  shows "requests (exportTrueCoachWorkouts cookie srv)
           = map (page_request cookie (getBearerToken cookie)) [1..max 1 N]
         \<and> int (length (requests (exportTrueCoachWorkouts cookie srv))) = max 1 N"
proof -
  obtain st where st:
    "fetch_pages cookie srv (getBearerToken cookie) 1 1
       \<lparr> allWorkouts = [], allWorkoutItems = [], sent = [] \<rparr> = (st, None)"
    "sent st = map (page_request cookie (getBearerToken cookie)) [1..max 1 N]"
    using fetch_pages_first [OF assms(2,3,4), of 1
        "\<lparr> allWorkouts = [], allWorkoutItems = [], sent = [] \<rparr>"]
    by auto
  show ?thesis
    using run_collected [OF assms(1) st(1)] st(2) by simp
qed

text \<open>
  The theorem at a service of two pages whose second page reports a total of 7: two
  fetches.
\<close>

theorem pagination_fetches_pages_one_to_total_witness:
  "truthy (getBearerToken session_cookie)
   \<and> reported_total_pages
        (srv_two_pages (page_request session_cookie (getBearerToken session_cookie) 1)) = Some 2
   \<and> reported_total_pages
        (srv_two_pages (page_request session_cookie (getBearerToken session_cookie) 2)) = Some 7
   \<and> requests (exportTrueCoachWorkouts session_cookie srv_two_pages) = [first_page, second_page]
   \<and> length (requests (exportTrueCoachWorkouts session_cookie srv_two_pages)) = 2"
proof -
  let ?req = "page_request session_cookie (getBearerToken session_cookie)"
  have tok: "truthy (getBearerToken session_cookie)"
    by code_simp
  have p1: "page_succeeds (srv_two_pages (?req 1))"
    by code_simp
  have n: "reported_total_pages (srv_two_pages (?req 1)) = Some 2"
    by code_simp
  have n2: "reported_total_pages (srv_two_pages (?req 2)) = Some 7"
    by code_simp
  have later: "\<forall>p. 2 \<le> p \<and> p \<le> 2 \<longrightarrow> page_succeeds (srv_two_pages (?req p))"
    by (simp add: srv_two_pages_def ok_page_def page_succeeds_def)
  have pages: "map ?req [1..max 1 2] = [first_page, second_page]"
    by code_simp
  have "requests (exportTrueCoachWorkouts session_cookie srv_two_pages) = [first_page, second_page]"
    using pagination_fetches_pages_one_to_total [OF tok p1 n later] pages by simp
  then show ?thesis
    using tok n n2 by simp
qed

text \<open>
  Claim C1 as stated fails. When page 1 reports \<^verbatim>\<open>total_pages = 0\<close> the run has fetched one
  page, not none; and when page 1 reports 3 and the fetch of page 2 fails, the run stops
  after two fetches.
\<close>

theorem pagination_exactly_total_counterexample:
  "reported_total_pages
     (srv_no_pages (page_request session_cookie (getBearerToken session_cookie) 1)) = Some 0
   \<and> requests (exportTrueCoachWorkouts session_cookie srv_no_pages) = [first_page]
   \<and> reported_total_pages
        (srv_fails_second (page_request session_cookie (getBearerToken session_cookie) 1)) = Some 3
   \<and> requests (exportTrueCoachWorkouts session_cookie srv_fails_second) = [first_page, second_page]"
  by code_simp

subsection \<open>C2: the credential check\<close>

text \<open>
  Claim C2 does not hold of the script. A session that has an \<^verbatim>\<open>access_token\<close> and lacks the
  \<^verbatim>\<open>user_id\<close> passes the only check there is, the one on the token: whatever the service
  answers, the run sends a first request, and its URL names the client \<^verbatim>\<open>null\<close>.
\<close>

theorem missing_user_id_still_fetches:
  "\<exists>rs. requests (exportTrueCoachWorkouts cookie_without_user_id srv) =
     \<lparr> url = ''https://app.truecoach.co/proxy/api/clients/null/workouts?states=completed&per_page=20&page=1&order=desc'',
       authorization = ''Bearer abc'' \<rparr> # rs"
proof -
  let ?token = "getBearerToken cookie_without_user_id"
  have tok: "truthy ?token"
    by code_simp
  have req: "page_request cookie_without_user_id ?token 1 =
     \<lparr> url = ''https://app.truecoach.co/proxy/api/clients/null/workouts?states=completed&per_page=20&page=1&order=desc'',
       authorization = ''Bearer abc'' \<rparr>"
    by code_simp
  obtain st e where f:
    "fetch_pages cookie_without_user_id srv ?token 1 1
       \<lparr> allWorkouts = [], allWorkoutItems = [], sent = [] \<rparr> = (st, e)"
    by (cases "fetch_pages cookie_without_user_id srv ?token 1 1
       \<lparr> allWorkouts = [], allWorkoutItems = [], sent = [] \<rparr>") blast
  have "requests (exportTrueCoachWorkouts cookie_without_user_id srv) = sent st"
    using f run_thrown [OF tok] run_collected [OF tok] by (cases e) auto
  moreover obtain rs where "sent st = page_request cookie_without_user_id ?token 1 # rs"
    using fetch_pages_failure [OF f] by auto
  ultimately show ?thesis
    using req by simp
qed

subsection \<open>C3: one row for each matched item\<close>

text \<open>
  Claim C3. Whatever the workouts and the items are, the rows after the header are the rows
  of the items that have a parent, one each and in the order of the items; the items
  without a parent give no row and are reported, in the order of the items, by a warning
  that holds the text of the item's id. An item has a parent exactly when the id of some
  workout is the item's \<^verbatim>\<open>workout_id\<close>, and its row is made with such a workout.
\<close>

theorem join_one_row_per_matched_item:
  "fst (csv_rows ws is) =
     header_row # map (\<lambda>i. joined_row (the (parent_of ws i)) i) (filter (has_parent ws) is)
   \<and> snd (csv_rows ws is) =
       map (\<lambda>i. OrphanWarning (js_String (it_id i))) (filter (\<lambda>i. \<not> has_parent ws i) is)
   \<and> has_parent ws i = (\<exists>w\<in>set ws. key_eq (wk_id w) (it_workout_id i))
   \<and> has_parent ws i =
       (\<exists>w\<in>set ws. parent_of ws i = Some w \<and> key_eq (wk_id w) (it_workout_id i))"
proof -
  have "has_parent ws i = (\<exists>w\<in>set ws. key_eq (wk_id w) (it_workout_id i))"
    by (simp add: has_parent_def list_ex_iff)
  moreover have "has_parent ws i =
       (\<exists>w\<in>set ws. parent_of ws i = Some w \<and> key_eq (wk_id w) (it_workout_id i))"
  proof (cases "parent_of ws i")
    case None
    then show ?thesis using parent_of_None [of ws i] by simp
  next
    case (Some w)
    then show ?thesis using parent_of_None [of ws i] parent_of_Some [OF Some] by auto
  qed
  ultimately show ?thesis
    by (simp add: csv_rows_eq)
qed

subsection \<open>C4: the escaping rule\<close>

text \<open>
  Claim C4. Every cell, of the header and of the data alike, is written by the rule of the
  specification applied to the cell's text \<^verbatim>\<open>String(cell)\<close>: quoted, with its double quotes
  doubled, when the text holds a comma, a double quote, a CR or an LF, and unchanged
  otherwise. The output is the rows joined by LF, each row its cells joined by commas.
\<close>

theorem cells_escaped_by_rule:
  "escape_cell cell = spec_cell_text (js_String cell)
   \<and> csvContent csvRows =
       join_strs [LF]
         (map (\<lambda>row. join_strs [comma] (map (\<lambda>cell. spec_cell_text (js_String cell)) row))
              csvRows)"
proof -
  have e: "escape_cell = (\<lambda>cell. spec_cell_text (js_String cell))"
    by (rule ext) (rule escape_cell_spec)
  have "csvContent csvRows =
       join_strs [LF]
         (map (\<lambda>row. join_strs [comma] (map (\<lambda>cell. spec_cell_text (js_String cell)) row))
              csvRows)"
    unfolding csvContent_def e ..
  with escape_cell_spec [of cell] show ?thesis
    by (rule conjI)
qed

subsection \<open>C5: the round trip\<close>

text \<open>
  Claim C5. For every sequence of rows of six cells, reading the serialized header and rows
  back with the reference reader gives the texts of the cells again, row by row and cell
  by cell, whatever commas, double quotes and line breaks the texts hold.
\<close>

theorem csv_round_trip:
  assumes "\<forall>row\<in>set rows. length row = 6"
  shows "parse_csv (csvContent (header_row # rows)) = map (map js_String) (header_row # rows)"
proof (rule parse_csv_csvContent)
  show "header_row # rows \<noteq> []" by simp
  show "\<forall>row\<in>set (header_row # rows). 2 \<le> length row"
    using assms by (simp add: header_row_def)
qed

text \<open>The theorem at a row with a comma, a double quote, an LF, a CRLF, a number and an
  empty text.\<close>

theorem csv_round_trip_witness:
  "length tricky_row = 6
   \<and> parse_csv (csvContent [header_row, tricky_row]) =
       [[''date'', ''exercise_name'', ''instructions'', ''result'', ''state'', ''workout_title''],
        [''a,b'', [CHR ''x'', dquote, CHR ''y''], [CHR ''l'', LF, CHR ''m''],
         [CHR ''r'', CR, LF], ''7'', '''']]"
proof -
  have six: "\<forall>row\<in>set [tricky_row]. length row = 6"
    by (simp add: tricky_row_def)
  have texts: "map (map js_String) [header_row, tricky_row] =
       [[''date'', ''exercise_name'', ''instructions'', ''result'', ''state'', ''workout_title''],
        [''a,b'', [CHR ''x'', dquote, CHR ''y''], [CHR ''l'', LF, CHR ''m''],
         [CHR ''r'', CR, LF], ''7'', '''']]"
    by code_simp
  show ?thesis
    using csv_round_trip [OF six] six texts by simp
qed

subsection \<open>C6: the rows of the output\<close>

text \<open>
  Claim C6. Whatever the workouts and the items are, the output read back has the six
  names of the header as its first row, then the rows of the items that have a parent, in
  the order the joiner made them; the number of rows, of the output and of \<^verbatim>\<open>csvRows\<close> alike,
  is one more than the number of items that have a parent.
\<close>

theorem output_rows_header_then_joined:
  "parse_csv (csvContent (fst (csv_rows ws is))) =
     [''date'', ''exercise_name'', ''instructions'', ''result'', ''state'', ''workout_title'']
       # map (\<lambda>i. map js_String (joined_row (the (parent_of ws i)) i))
             (filter (has_parent ws) is)
   \<and> length (parse_csv (csvContent (fst (csv_rows ws is)))) =
       1 + length (filter (has_parent ws) is)
   \<and> length (fst (csv_rows ws is)) = 1 + length (filter (has_parent ws) is)"
proof -
  have "fst (csv_rows ws is) \<noteq> []"
    by (simp add: csv_rows_eq)
  moreover have "\<forall>row\<in>set (fst (csv_rows ws is)). 2 \<le> length row"
    using csv_rows_six_columns [of ws "is"] by simp
  ultimately have "parse_csv (csvContent (fst (csv_rows ws is)))
                     = map (map js_String) (fst (csv_rows ws is))"
    by (rule parse_csv_csvContent)
  then show ?thesis
    by (simp add: csv_rows_eq header_row_def comp_def)
qed

subsection \<open>C7: a failed fetch\<close>

text \<open>
  Claim C7. If any request of a run, the \<open>k\<close>-th one, gets a response that is not \<^verbatim>\<open>ok\<close>, then
  it is the last request of the run (no later page is asked for), the run ends with the
  error whose message holds the status of that response, and no file is offered for
  download.
\<close>

theorem failed_fetch_aborts_run:
  assumes "k < length (requests (exportTrueCoachWorkouts cookie srv))"
    and "srv (requests (exportTrueCoachWorkouts cookie srv) ! k) = Resolved resp"
    and "\<not> ok resp"
  shows "Suc k = length (requests (exportTrueCoachWorkouts cookie srv))
       \<and> console (exportTrueCoachWorkouts cookie srv) =
           [ExportFailed (Error (''API request failed: '' @ show_int (status resp)
                                   @ '' '' @ statusText resp))]
       \<and> download (exportTrueCoachWorkouts cookie srv) = None"
proof (cases "truthy (getBearerToken cookie)")
  case False
  then show ?thesis using assms(1) by (simp add: run_no_token)
next
  case True
  obtain st e where f:
    "fetch_pages cookie srv (getBearerToken cookie) 1 1
       \<lparr> allWorkouts = [], allWorkoutItems = [], sent = [] \<rparr> = (st, e)"
    by (cases "fetch_pages cookie srv (getBearerToken cookie) 1 1
       \<lparr> allWorkouts = [], allWorkoutItems = [], sent = [] \<rparr>") blast
  have rq: "requests (exportTrueCoachWorkouts cookie srv) = sent st"
    using True f run_thrown [OF True] run_collected [OF True] by (cases e) auto
  from fetch_pages_failure [OF f] obtain rs where rs:
    "sent st = page_request cookie (getBearerToken cookie) 1 # rs"
    "\<forall>k resp. k < Suc (length rs)
        \<and> srv ((page_request cookie (getBearerToken cookie) 1 # rs) ! k) = Resolved resp
        \<and> \<not> ok resp \<longrightarrow>
        k = length rs \<and> e = Some (api_request_failed resp)"
    by auto
  have "k = length rs \<and> e = Some (api_request_failed resp)"
    using rs(2) [rule_format, of k resp] assms rq rs(1) by simp
  then show ?thesis
    using run_thrown [OF True, of srv st "api_request_failed resp"] f rq rs(1)
    by (simp add: api_request_failed_def)
qed

text \<open>The theorem at a service whose first page reports three pages and whose second
  page answers 500: the second request is the last one.\<close>

theorem failed_fetch_aborts_run_witness:
  "1 < length (requests (exportTrueCoachWorkouts session_cookie srv_fails_second))
   \<and> srv_fails_second (requests (exportTrueCoachWorkouts session_cookie srv_fails_second) ! 1)
       = Resolved internal_error
   \<and> \<not> ok internal_error
   \<and> length (requests (exportTrueCoachWorkouts session_cookie srv_fails_second)) = 2
   \<and> console (exportTrueCoachWorkouts session_cookie srv_fails_second) =
       [ExportFailed (Error ''API request failed: 500 Internal Server Error'')]
   \<and> download (exportTrueCoachWorkouts session_cookie srv_fails_second) = None"
proof -
  have h1: "1 < length (requests (exportTrueCoachWorkouts session_cookie srv_fails_second))"
    by code_simp
  have h2: "srv_fails_second (requests (exportTrueCoachWorkouts session_cookie srv_fails_second) ! 1)
       = Resolved internal_error"
    by code_simp
  have h3: "\<not> ok internal_error"
    by code_simp
  have msg: "''API request failed: '' @ show_int (status internal_error) @ '' ''
               @ statusText internal_error = ''API request failed: 500 Internal Server Error''"
    by code_simp
  show ?thesis
    using failed_fetch_aborts_run [OF h1 h2 h3] h1 h2 h3 msg by simp
qed

subsection \<open>C8: duplicate ids\<close>

text \<open>
  Claim C8. Among the workouts, let \<open>w\<close> be the last one with its id (a primitive value):
  whatever workouts come before it, also with the same id, looking up that id in the map
  gives \<open>w\<close>. No duplicate makes a run fail: a run offers its file exactly when it has a token
  and the collection of the pages threw nothing.
\<close>

theorem duplicate_ids_last_write_wins:
  assumes "primitive (wk_id w)"
    and "\<forall>y\<in>set ys. wk_id y \<noteq> wk_id w"
  shows "map_get (build_map (xs @ w # ys) []) (wk_id w) = Some w
       \<and> (download (exportTrueCoachWorkouts cookie srv) \<noteq> None) =
           (truthy (getBearerToken cookie)
            \<and> snd (fetch_pages cookie srv (getBearerToken cookie) 1 1
                     \<lparr> allWorkouts = [], allWorkoutItems = [], sent = [] \<rparr>) = None)"
proof -
  have "find (\<lambda>v. key_eq (wk_id v) (wk_id w)) (rev ys) = None"
    using assms(2) by (auto simp: find_None_iff key_eq_iff)
  moreover have "key_eq (wk_id w) (wk_id w)"
    using assms(1) by (simp add: key_eq_iff)
  ultimately have "map_get (build_map (xs @ w # ys) []) (wk_id w) = Some w"
    by (simp add: map_get_last_match find_app)
  moreover have "(download (exportTrueCoachWorkouts cookie srv) \<noteq> None) =
           (truthy (getBearerToken cookie)
            \<and> snd (fetch_pages cookie srv (getBearerToken cookie) 1 1
                     \<lparr> allWorkouts = [], allWorkoutItems = [], sent = [] \<rparr>) = None)"
  proof (cases "truthy (getBearerToken cookie)")
    case False
    then show ?thesis by (simp add: run_no_token)
  next
    case True
    obtain st e where f:
      "fetch_pages cookie srv (getBearerToken cookie) 1 1
         \<lparr> allWorkouts = [], allWorkoutItems = [], sent = [] \<rparr> = (st, e)"
      by (cases "fetch_pages cookie srv (getBearerToken cookie) 1 1
         \<lparr> allWorkouts = [], allWorkoutItems = [], sent = [] \<rparr>") blast
    show ?thesis
      using True f run_thrown [OF True] run_collected [OF True] by (cases e) auto
  qed
  ultimately show ?thesis
    by (rule conjI)
qed

text \<open>The theorem at two workouts with the id 5: the second one is found, and a run
  whose only page holds both exports the item with the second one's date and title.\<close>

theorem duplicate_ids_last_write_wins_witness:
  "wk_id old_leg_day = wk_id leg_day
   \<and> map_get (build_map [old_leg_day, leg_day] []) (JNum 5) = Some leg_day
   \<and> download (exportTrueCoachWorkouts session_cookie srv_duplicates) =
       Some (''date,exercise_name,instructions,result,state,workout_title'' @ [LF]
             @ ''2024-01-01,Squat,,5x5,completed,Leg Day'')"
proof -
  have p: "primitive (wk_id leg_day)"
    by code_simp
  have l: "\<forall>y\<in>set []. wk_id y \<noteq> wk_id leg_day"
    by simp
  have i: "wk_id old_leg_day = wk_id leg_day" "wk_id leg_day = JNum 5"
    by code_simp+
  have d: "download (exportTrueCoachWorkouts session_cookie srv_duplicates) =
       Some (''date,exercise_name,instructions,result,state,workout_title'' @ [LF]
             @ ''2024-01-01,Squat,,5x5,completed,Leg Day'')"
    by code_simp
  have "map_get (build_map ([old_leg_day] @ leg_day # []) []) (wk_id leg_day) = Some leg_day"
    using duplicate_ids_last_write_wins [OF p l, of "[old_leg_day]"] by (rule conjunct1)
  then show ?thesis
    using i d by simp
qed

subsection \<open>C9: the text of a field\<close>

text \<open>
  Claim C9 does not hold of the script. The serializer alone writes the number 0 as its
  text \<^verbatim>\<open>0\<close>, but the joiner builds each cell as \<^verbatim>\<open>field || ''\<close>, which takes the number 0 for a
  missing field: the cell of an item whose \<^verbatim>\<open>result\<close> is the number 0 is the empty text, and
  the item is exported with an empty result column.
\<close>

theorem zero_result_exported_empty:
  "it_result squat_zero_result = JNum 0
   \<and> escape_cell (JNum 0) = ''0''
   \<and> joined_row leg_day squat_zero_result ! 3 = JStr ''''
   \<and> csvContent (fst (csv_rows [leg_day] [squat_zero_result])) =
       ''date,exercise_name,instructions,result,state,workout_title'' @ [LF]
         @ ''2024-01-01,Squat,,,completed,Leg Day''"
  by code_simp

subsection \<open>C10: strict key equality\<close>

text \<open>
  Claim C10, amended. The lookup compares keys strictly. Whatever workout a lookup finds
  has the very id that was looked up, of the same type and the same value: a workout whose
  id differs in type from an item's \<^verbatim>\<open>workout_id\<close> (the number 5 against the text \<^verbatim>\<open>5\<close>) is
  never its match. And an item whose \<^verbatim>\<open>workout_id\<close> is the id of no workout is not found in
  the map; wherever it stands among the items, it adds no row, and it is reported as an
  orphan by the text of its id.
\<close>

theorem join_keys_compared_strictly:
  assumes "\<forall>w\<in>set ws. wk_id w \<noteq> it_workout_id i"
  shows "map_get (build_map ws []) (it_workout_id i) = None
       \<and> fst (csv_rows ws (is1 @ i # is2)) = fst (csv_rows ws (is1 @ is2))
       \<and> snd (csv_rows ws (is1 @ i # is2)) =
           snd (csv_rows ws is1) @ OrphanWarning (js_String (it_id i)) # snd (csv_rows ws is2)
       \<and> (map_get (build_map ws' []) k = Some w' \<longrightarrow>
            wk_id w' = k \<and> type_of (wk_id w') = type_of k)"
proof -
  have "\<forall>w\<in>set ws. \<not> key_eq (wk_id w) (it_workout_id i)"
    using assms by (simp add: key_eq_iff)
  then have orphan: "\<not> has_parent ws i"
    by (simp add: has_parent_def list_ex_iff)
  then have none: "map_get (build_map ws []) (it_workout_id i) = None"
    using parent_of_None [of ws i] by (simp add: map_get_workoutMap)
  have strict: "map_get (build_map ws' []) k = Some w' \<longrightarrow>
                  wk_id w' = k \<and> type_of (wk_id w') = type_of k"
  proof
    assume "map_get (build_map ws' []) k = Some w'"
    then have "find (\<lambda>w. key_eq (wk_id w) k) (rev ws') = Some w'"
      by (simp add: map_get_last_match)
    then have "key_eq (wk_id w') k"
      unfolding find_Some_iff by blast
    then show "wk_id w' = k \<and> type_of (wk_id w') = type_of k"
      using key_eq_same_type by (simp add: key_eq_iff)
  qed
  show ?thesis
    using none orphan strict by (simp add: csv_rows_eq)
qed

text \<open>
  The theorem at the workouts of ids 5 (a number) and \<^verbatim>\<open>"7"\<close> (a text) and an item of
  \<^verbatim>\<open>workout_id\<close> \<^verbatim>\<open>"5"\<close> that follows a matched item: the item is an orphan, though its key has
  the type of the second workout's id. Where a workout of id \<^verbatim>\<open>"5"\<close> stands beside the one of
  id 5, the lookup of \<^verbatim>\<open>"5"\<close> finds the former.
\<close>

theorem join_keys_compared_strictly_witness:
  "wk_id leg_day = JNum 5 \<and> wk_id rest_day = JStr ''7''
   \<and> it_workout_id squat_text_key = JStr ''5''
   \<and> map_get (build_map [leg_day, rest_day] []) (JStr ''5'') = None
   \<and> fst (csv_rows [leg_day, rest_day] [squat, squat_text_key])
       = fst (csv_rows [leg_day, rest_day] [squat])
   \<and> snd (csv_rows [leg_day, rest_day] [squat, squat_text_key]) = [OrphanWarning ''10'']
   \<and> map_get (build_map [leg_day, leg_day_text_id] []) (JStr ''5'') = Some leg_day_text_id
   \<and> wk_id leg_day_text_id = JStr ''5''"
proof -
  have t: "\<forall>w\<in>set [leg_day, rest_day]. wk_id w \<noteq> it_workout_id squat_text_key"
    by (simp add: leg_day_def rest_day_def squat_text_key_def squat_def)
  have v: "wk_id leg_day = JNum 5" "wk_id rest_day = JStr ''7''"
    "it_workout_id squat_text_key = JStr ''5''"
    "snd (csv_rows [leg_day, rest_day] [squat]) = []" "snd (csv_rows [leg_day, rest_day] []) = []"
    "js_String (it_id squat_text_key) = ''10''"
    "map_get (build_map [leg_day, leg_day_text_id] []) (JStr ''5'') = Some leg_day_text_id"
    by code_simp+
  show ?thesis
    using join_keys_compared_strictly [OF t, of "[squat]" "[]" "[leg_day, leg_day_text_id]"
        "JStr ''5''" leg_day_text_id] v
    by simp
qed

text \<open>
  Claim C10 as stated fails. The \<^verbatim>\<open>workout_id\<close> \<^verbatim>\<open>"5"\<close> of an item equals the id 5 of a workout as
  a value and differs from it in type; yet when another workout has the id \<^verbatim>\<open>"5"\<close>, the
  item is matched with that one and exported, and no orphan is reported.
\<close>

theorem join_type_mismatch_counterexample:
  "wk_id leg_day = JNum 5 \<and> it_workout_id squat_text_key = JStr ''5''
   \<and> type_of (wk_id leg_day) \<noteq> type_of (it_workout_id squat_text_key)
   \<and> wk_id leg_day_text_id = JStr ''5''
   \<and> csv_rows [leg_day, leg_day_text_id] [squat_text_key] =
       ([header_row, joined_row leg_day_text_id squat_text_key], [])
   \<and> csvContent (fst (csv_rows [leg_day, leg_day_text_id] [squat_text_key])) =
       ''date,exercise_name,instructions,result,state,workout_title'' @ [LF]
         @ ''2024-02-02,Squat,,5x5,completed,Upper Body''"
  by code_simp

subsection \<open>The check on the token\<close>

text \<open>
  The half of claim C2 that the script keeps: a session whose \<^verbatim>\<open>access_token\<close> is absent or
  falsy (the empty text, for one) ends the run with the error on the token, and no request
  is sent.
\<close>

theorem missing_token_no_requests:
  assumes "\<not> truthy (opt_get (opt_get cookie ''authenticated'') ''access_token'')"
  shows "exportTrueCoachWorkouts cookie srv =
           \<lparr> requests = [], console = [NoBearerToken], download = None \<rparr>"
proof -
  have "\<not> truthy (getBearerToken cookie)"
    using assms by (simp add: getBearerToken_def js_or_def)
  then show ?thesis
    by (rule run_no_token)
qed

theorem missing_token_no_requests_witness:
  "\<not> truthy (opt_get (opt_get cookie_without_token ''authenticated'') ''access_token'')
   \<and> requests (exportTrueCoachWorkouts cookie_without_token srv_two_pages) = []
   \<and> console (exportTrueCoachWorkouts cookie_without_token srv_two_pages) = [NoBearerToken]
   \<and> download (exportTrueCoachWorkouts cookie_without_token srv_two_pages) = None"
proof -
  have h: "\<not> truthy (opt_get (opt_get cookie_without_token ''authenticated'') ''access_token'')"
    by code_simp
  show ?thesis
    using missing_token_no_requests [OF h, of srv_two_pages] h by simp
qed

end
